theory Spec2Isabelle
  imports Main "HOL-Library.Word" "HOL-Library.Multiset"
begin

section \<open>JavaScript values\<close>

text \<open>
  A JavaScript string is a sequence of UTF-16 code units; \<open>length\<close>, \<open>substring\<close> and
  \<open>trim\<close> all count code units. \<open>js\<close> writes an ASCII literal as such a string.
\<close>

type_synonym jschar = "16 word"
type_synonym jsstring = "jschar list"

definition js :: "string \<Rightarrow> jsstring" where
  "js s = map of_char s"

text \<open>
  The values a parsed JSON body can hold in a field, and \<open>Undefined\<close> for a property
  that is absent. \<open>Num\<close> carries an integer-valued number (a number is only ever tested
  against zero here); \<open>Arr\<close> and \<open>Obj\<close> stand for any array and any object.
\<close>

datatype jsval = Undefined | Null | Bool bool | Num int | Str jsstring | Arr | Obj

text \<open>The operator \<open>!v\<close>: true on the falsy values.\<close>

fun js_not :: "jsval \<Rightarrow> bool" where
  "js_not Undefined = True"
| "js_not Null = True"
| "js_not (Bool b) = (\<not> b)"
| "js_not (Num n) = (n = 0)"
| "js_not (Str s) = (s = [])"
| "js_not Arr = False"
| "js_not Obj = False"

text \<open>
  \<open>const { title, content } = req.body\<close>. The JSON middleware leaves an object in
  \<open>req.body\<close>, here a map from property names to values; an absent property reads as
  \<open>undefined\<close>.
\<close>

definition property :: "(string \<rightharpoonup> jsval) \<Rightarrow> string \<Rightarrow> jsval" where
  "property body k = (case body k of None \<Rightarrow> Undefined | Some v \<Rightarrow> v)"

text \<open>
  \<open>String.prototype.trim\<close> removes the WhiteSpace and LineTerminator code units of
  ECMAScript from both ends.
\<close>

definition isWhiteSpace :: "jschar \<Rightarrow> bool" where
  "isWhiteSpace c \<longleftrightarrow>
     c = 0x09 \<or> c = 0x0A \<or> c = 0x0B \<or> c = 0x0C \<or> c = 0x0D \<or> c = 0x20 \<or> c = 0xA0 \<or>
     c = 0x1680 \<or> (0x2000 \<le> c \<and> c \<le> 0x200A) \<or> c = 0x2028 \<or> c = 0x2029 \<or>
     c = 0x202F \<or> c = 0x205F \<or> c = 0x3000 \<or> c = 0xFEFF"

definition trim :: "jsstring \<Rightarrow> jsstring" where
  "trim s = rev (dropWhile isWhiteSpace (rev (dropWhile isWhiteSpace s)))"

section \<open>The backend: server.js\<close>

subsection \<open>Article schema and model\<close>

text \<open>
  A stored article document. \<open>article_id\<close> is the \<open>_id\<close> the document mapper
  assigns; \<open>date\<close> is a timestamp in milliseconds.
\<close>

record article =
  article_id :: nat
  title :: jsstring
  content :: jsstring
  date :: int

text \<open>
  What one request finds around it: the clock (\<open>Date.now\<close>), the identifier the
  document mapper will assign, whether the database answers, and how the mapper's String
  type converts a value that is not a string (\<open>None\<close> when it refuses the value).
\<close>

record env =
  now :: int
  fresh_id :: nat
  reachable :: bool
  cast_other :: "jsval \<Rightarrow> jsstring option"

text \<open>
  The schema options have the meaning the document mapper (mongoose) documents for them:
  \<open>trim\<close> is a setter that runs when the document is built, \<open>required\<close> and
  \<open>maxlength\<close> are validators that run in \<open>save\<close>, and \<open>default\<close> fills a path
  that was not given.

  The value of a String path of a new document: unset, refused by the cast, or a text.
  Both \<open>title\<close> and \<open>content\<close> are declared \<open>trim: true\<close>, so a text is stored
  trimmed.
\<close>

datatype path_value = Absent | Uncastable | Text jsstring

definition set_trimmed :: "env \<Rightarrow> jsval \<Rightarrow> path_value" where
  "set_trimmed e v =
     (case v of
        Undefined \<Rightarrow> Absent
      | Null \<Rightarrow> Absent
      | Str s \<Rightarrow> Text (trim s)
      | _ \<Rightarrow> (case cast_other e v of None \<Rightarrow> Uncastable | Some s \<Rightarrow> Text (trim s)))"

record document =
  doc_id :: nat
  doc_title :: path_value
  doc_content :: path_value
  doc_date :: int

text \<open>\<open>new Article({ title, content })\<close>; \<open>date\<close> takes its default, \<open>Date.now\<close>.\<close>

definition new_Article :: "env \<Rightarrow> jsval \<Rightarrow> jsval \<Rightarrow> document" where
  "new_Article e t c =
     \<lparr>doc_id = fresh_id e, doc_title = set_trimmed e t, doc_content = set_trimmed e c,
      doc_date = now e\<rparr>"

datatype validator_error = CastError | RequiredError | MaxlengthError

datatype db_error = ValidationError "(string \<times> validator_error) list" | ConnectionError

text \<open>\<open>title: { type: String, required: true, trim: true, maxlength: 200 }\<close>\<close>

definition validate_title :: "path_value \<Rightarrow> validator_error + jsstring" where
  "validate_title v =
     (case v of
        Uncastable \<Rightarrow> Inl CastError
      | Absent \<Rightarrow> Inl RequiredError
      | Text s \<Rightarrow>
          if s = [] then Inl RequiredError
          else if length s > 200 then Inl MaxlengthError
          else Inr s)"

text \<open>\<open>content: { type: String, required: true, trim: true }\<close>\<close>

definition validate_content :: "path_value \<Rightarrow> validator_error + jsstring" where
  "validate_content v =
     (case v of
        Uncastable \<Rightarrow> Inl CastError
      | Absent \<Rightarrow> Inl RequiredError
      | Text s \<Rightarrow> if s = [] then Inl RequiredError else Inr s)"

text \<open>
  \<open>newArticle.save()\<close>: the document is validated against the schema, then inserted.
  The promise rejects on a validation error or when the database does not answer, and
  nothing is stored then. The collection is a list in insertion order.
\<close>

definition save :: "env \<Rightarrow> article list \<Rightarrow> document \<Rightarrow> db_error + (article \<times> article list)" where
  "save e store d =
     (case (validate_title (doc_title d), validate_content (doc_content d)) of
        (Inr t, Inr c) \<Rightarrow>
          if reachable e then
            (let a = \<lparr>article_id = doc_id d, title = t, content = c, date = doc_date d\<rparr>
             in Inr (a, store @ [a]))
          else Inl ConnectionError
      | (Inl x, Inr c) \<Rightarrow> Inl (ValidationError [(''title'', x)])
      | (Inr t, Inl y) \<Rightarrow> Inl (ValidationError [(''content'', y)])
      | (Inl x, Inl y) \<Rightarrow> Inl (ValidationError [(''title'', x), (''content'', y)]))"

text \<open>\<open>Article.find().sort({ date: -1 })\<close>: every document, newest first.\<close>

definition find_sorted :: "env \<Rightarrow> article list \<Rightarrow> db_error + article list" where
  "find_sorted e store =
     (if reachable e then Inr (sort_key (\<lambda>a. - date a) store) else Inl ConnectionError)"

subsection \<open>Responses\<close>

text \<open>
  The three JSON envelopes the routes send: \<open>{success: true, count, data}\<close>,
  \<open>{success: true, message, data}\<close> and \<open>{success: false, message}\<close>.
\<close>

datatype envelope =
    Listed nat "article list"
  | Saved jsstring article
  | Failed jsstring

fun success :: "envelope \<Rightarrow> bool" where
  "success (Listed n xs) = True"
| "success (Saved m a) = True"
| "success (Failed m) = False"

record response =
  status :: nat
  json :: envelope

subsection \<open>Routes\<close>

text \<open>
  \<open>app.get("/api/articles", ...)\<close>. A route takes the collection and returns the
  response together with the collection it leaves behind.
\<close>

definition get_articles :: "env \<Rightarrow> article list \<Rightarrow> response \<times> article list" where
  "get_articles e store =
     (case find_sorted e store of
        Inr articles \<Rightarrow>
          (\<lparr>status = 200, json = Listed (length articles) articles\<rparr>, store)
      | Inl error \<Rightarrow>
          (\<lparr>status = 500, json = Failed (js ''Server error while fetching articles'')\<rparr>,
           store))"

text \<open>\<open>app.post("/api/articles", ...)\<close>\<close>

definition post_articles ::
  "env \<Rightarrow> article list \<Rightarrow> (string \<rightharpoonup> jsval) \<Rightarrow> response \<times> article list" where
  "post_articles e store body =
     (let title = property body ''title''; content = property body ''content'' in
      if js_not title \<or> js_not content then
        (\<lparr>status = 400, json = Failed (js ''Title and content are required'')\<rparr>, store)
      else
        (case save e store (new_Article e title content) of
           Inr (savedArticle, store') \<Rightarrow>
             (\<lparr>status = 201, json = Saved (js ''Article created successfully'') savedArticle\<rparr>,
              store')
         | Inl error \<Rightarrow>
             (\<lparr>status = 500, json = Failed (js ''Server error while creating article'')\<rparr>,
              store)))"

subsection \<open>Sequences of requests\<close>

text \<open>
  The two routes as one server: each request comes with its own surroundings, and leaves
  the collection for the next one.
\<close>

datatype request = GetArticles | PostArticles "string \<rightharpoonup> jsval"

fun serve :: "article list \<Rightarrow> env \<times> request \<Rightarrow> article list" where
  "serve store (e, GetArticles) = snd (get_articles e store)"
| "serve store (e, PostArticles body) = snd (post_articles e store body)"

text \<open>
  The invariant of the collection: title and content are not empty after trimming, and
  the title has at most 200 code units.
\<close>

definition valid_article :: "article \<Rightarrow> bool" where
  "valid_article a \<longleftrightarrow>
     trim (title a) \<noteq> [] \<and> trim (content a) \<noteq> [] \<and> length (title a) \<le> 200"

section \<open>The client\<close>

subsection \<open>What the browser provides\<close>

text \<open>
  \<open>escapeHtml\<close> makes the text the \<open>textContent\<close> of a fresh \<open>div\<close> and reads its
  \<open>innerHTML\<close> back. The HTML serialisation of a text node replaces \<open>&\<close> by
  \<open>&amp;\<close>, U+00A0 by \<open>&nbsp;\<close>, \<open><\<close> by \<open>&lt;\<close> and \<open>>\<close> by \<open>&gt;\<close>,
  and leaves every other code unit as it is.
\<close>

definition escapeChar :: "jschar \<Rightarrow> jsstring" where
  "escapeChar c =
     (if c = 0x26 then js ''&amp;''
      else if c = 0xA0 then js ''&nbsp;''
      else if c = 0x3C then js ''&lt;''
      else if c = 0x3E then js ''&gt;''
      else [c])"

definition escapeHtml :: "jsstring \<Rightarrow> jsstring" where
  "escapeHtml text = concat (map escapeChar text)"

text \<open>
  The other direction: the text a browser shows for a fragment assigned to
  \<open>innerHTML\<close>, for fragments made of plain text and of the four character references
  that the serialisation writes.
\<close>

fun displayedText :: "jsstring \<Rightarrow> jsstring" where
  "displayedText [] = []"
| "displayedText (c # s) =
     (if c = 0x26 \<and> take 4 s = js ''amp;'' then 0x26 # displayedText (drop 4 s)
      else if c = 0x26 \<and> take 5 s = js ''nbsp;'' then 0xA0 # displayedText (drop 5 s)
      else if c = 0x26 \<and> take 3 s = js ''lt;'' then 0x3C # displayedText (drop 3 s)
      else if c = 0x26 \<and> take 3 s = js ''gt;'' then 0x3E # displayedText (drop 3 s)
      else c # displayedText s)"

text \<open>
  \<open>String.prototype.toLowerCase\<close> and \<open>Date.prototype.toLocaleDateString\<close> (with the
  fixed locale and options of \<open>createArticleCard\<close>) are taken as they come.
\<close>

record browser =
  toLowerCase :: "jsstring \<Rightarrow> jsstring"
  toLocaleDateString :: "int \<Rightarrow> jsstring"

text \<open>\<open>s.includes(t)\<close>: \<open>t\<close> occurs in \<open>s\<close> at some position.\<close>

definition js_includes :: "jsstring \<Rightarrow> jsstring \<Rightarrow> bool" where
  "js_includes s t = list_ex (\<lambda>i. take (length t) (drop i s) = t) [0..<Suc (length s)]"

subsection \<open>Article cards\<close>

datatype icon = Padlock | Globe | Microbe | Chart | Cloud | Phone | Envelope | Shield

definition getArticleIcon :: "browser \<Rightarrow> jsstring \<Rightarrow> icon" where
  "getArticleIcon B t =
     (let lowerTitle = toLowerCase B t in
      if js_includes lowerTitle (js ''password'') \<or> js_includes lowerTitle (js ''auth'') then Padlock
      else if js_includes lowerTitle (js ''network'') \<or> js_includes lowerTitle (js ''firewall'')
        then Globe
      else if js_includes lowerTitle (js ''malware'') \<or> js_includes lowerTitle (js ''virus'')
        then Microbe
      else if js_includes lowerTitle (js ''privacy'') \<or> js_includes lowerTitle (js ''data'')
        then Chart
      else if js_includes lowerTitle (js ''cloud'') \<or> js_includes lowerTitle (js ''aws'') then Cloud
      else if js_includes lowerTitle (js ''social'') \<or> js_includes lowerTitle (js ''media'')
        then Phone
      else if js_includes lowerTitle (js ''email'') \<or> js_includes lowerTitle (js ''phishing'')
        then Envelope
      else Shield)"

text \<open>
  The card element, by the parts the template fills in: the icon, the \<open>innerHTML\<close> of
  the title heading and of the \<open>.article-content\<close> element (without the layout white space
  of the template around them), the classes \<open>collapsed\<close> and \<open>expanded\<close> of that
  element, the date, and the button when there is one. The button carries its caption and
  its \<open>data-full-content\<close> attribute.
\<close>

datatype caption = ReadMore | ReadLess

record button =
  caption :: caption
  data_full_content :: jsstring

record card =
  card_icon :: icon
  title_html :: jsstring
  collapsed :: bool
  expanded :: bool
  content_html :: jsstring
  date_text :: jsstring
  read_more_btn :: "button option"

definition createArticleCard :: "browser \<Rightarrow> article \<Rightarrow> card" where
  "createArticleCard B a =
     (let articleDate = toLocaleDateString B (date a);
          needsReadMore = length (content a) > 200;
          shortContent =
            (if needsReadMore then take 200 (content a) @ js ''...'' else content a)
      in \<lparr>card_icon = getArticleIcon B (title a),
          title_html = escapeHtml (title a),
          collapsed = needsReadMore,
          expanded = False,
          content_html = escapeHtml (if needsReadMore then shortContent else content a),
          date_text = articleDate,
          read_more_btn =
            (if needsReadMore
             then Some \<lparr>caption = ReadMore, data_full_content = escapeHtml (content a)\<rparr>
             else None)\<rparr>)"

text \<open>
  \<open>toggleReadMore(button)\<close>, as a function of the card the button belongs to. A card
  without a button has nothing to click and stays as it is.
\<close>

definition toggleReadMore :: "card \<Rightarrow> card" where
  "toggleReadMore c =
     (case read_more_btn c of
        None \<Rightarrow> c
      | Some b \<Rightarrow>
          (let isCollapsed = collapsed c in
           if isCollapsed then
             (let fullContent = data_full_content b in
              c\<lparr>content_html := fullContent, collapsed := False, expanded := True,
                read_more_btn := Some (b\<lparr>caption := ReadLess\<rparr>)\<rparr>)
           else
             (let fullContent = data_full_content b;
                  shortContent = take 200 fullContent @ js ''...''
              in c\<lparr>content_html := shortContent, expanded := False, collapsed := True,
                   read_more_btn := Some (b\<lparr>caption := ReadMore\<rparr>)\<rparr>)))"

subsection \<open>The page and its states\<close>

text \<open>
  The inline \<open>style.display\<close> of an element. Before the script sets it, the style sheet
  decides whether the element shows (\<open>FromStyleSheet\<close>).
\<close>

datatype display = FromStyleSheet bool | DisplayNone | DisplayBlock | DisplayGrid

fun visible :: "display \<Rightarrow> bool" where
  "visible (FromStyleSheet b) = b"
| "visible DisplayNone = False"
| "visible DisplayBlock = True"
| "visible DisplayGrid = True"

text \<open>
  The elements the script holds. \<open>loadingElement\<close> may be missing from the document
  (\<open>None\<close>). \<open>articlesList\<close> is the list of cards in the grid, \<open>alerts\<close> the
  dialogs shown so far, oldest first.
\<close>

record page =
  loadingElement :: "display option"
  emptyState :: display
  errorState :: display
  articlesList_display :: display
  articlesList :: "card list"
  addArticleForm :: display
  alerts :: "jsstring list"

definition hideAllStates :: "page \<Rightarrow> page" where
  "hideAllStates p =
     (let p1 = (case loadingElement p of
                  None \<Rightarrow> p
                | Some d \<Rightarrow> p\<lparr>loadingElement := Some DisplayNone\<rparr>)
      in p1\<lparr>emptyState := DisplayNone, errorState := DisplayNone,
            articlesList_display := DisplayNone\<rparr>)"

definition showEmptyState :: "page \<Rightarrow> page" where
  "showEmptyState p = (hideAllStates p)\<lparr>emptyState := DisplayBlock\<rparr>"

definition showErrorState :: "page \<Rightarrow> page" where
  "showErrorState p = (hideAllStates p)\<lparr>errorState := DisplayBlock\<rparr>"

text \<open>\<open>displayArticles(articles)\<close>; \<open>None\<close> is an \<open>articles\<close> that is null or undefined.\<close>

definition displayArticles :: "browser \<Rightarrow> article list option \<Rightarrow> page \<Rightarrow> page" where
  "displayArticles B articles p =
     (let p1 = hideAllStates p in
      case articles of
        None \<Rightarrow> showEmptyState p1
      | Some xs \<Rightarrow>
          if length xs = 0 then showEmptyState p1
          else p1\<lparr>articlesList := map (createArticleCard B) xs,
                  articlesList_display := DisplayGrid\<rparr>)"

text \<open>
  How the request of \<open>loadArticles\<close> ends: \<open>fetch\<close> rejects, or there is a response
  with its \<open>ok\<close> flag and its body, \<open>None\<close> when \<open>response.json()\<close> rejects.
\<close>

record reply =
  reply_success :: bool
  reply_data :: "article list option"

datatype fetch_result = NetworkError | Response bool "reply option"

text \<open>
  \<open>loadArticles\<close>, from the moment the request has ended. Every \<open>throw\<close> of the
  \<open>try\<close> block lands in the \<open>catch\<close>, which calls \<open>showEmptyState\<close>; reading
  \<open>result.data.length\<close> of a missing \<open>data\<close> is one of them.
\<close>

definition loadArticles :: "browser \<Rightarrow> fetch_result \<Rightarrow> page \<Rightarrow> page" where
  "loadArticles B r p =
     (case r of
        NetworkError \<Rightarrow> showEmptyState p
      | Response ok body \<Rightarrow>
          if \<not> ok then showEmptyState p
          else (case body of
                  None \<Rightarrow> showEmptyState p
                | Some result \<Rightarrow>
                    if reply_success result then
                      (case reply_data result of
                         None \<Rightarrow> showEmptyState p
                       | Some d \<Rightarrow> displayArticles B (Some d) p)
                    else showEmptyState p))"

subsection \<open>The form\<close>

definition showAddArticleForm :: "page \<Rightarrow> page" where
  "showAddArticleForm p = p\<lparr>addArticleForm := DisplayBlock\<rparr>"

definition hideAddArticleForm :: "page \<Rightarrow> page" where
  "hideAddArticleForm p = p\<lparr>addArticleForm := DisplayNone\<rparr>"

definition alert :: "string \<Rightarrow> page \<Rightarrow> page" where
  "alert m p = p\<lparr>alerts := alerts p @ [js m]\<rparr>"

text \<open>
  How the POST of \<open>handleArticleSubmit\<close> ends: \<open>fetch\<close> or \<open>response.json()\<close>
  rejects, or the body is read and has its \<open>success\<close> flag.
\<close>

datatype submit_result = SubmitFailed | SubmitReply bool

text \<open>
  \<open>handleArticleSubmit\<close> with the two fields of the form as arguments. On success it
  starts \<open>loadArticles\<close> without waiting for it: the request then ends in a later step of
  its own. The contents of the form fields are not part of the page here.
\<close>

definition handleArticleSubmit :: "jsstring \<Rightarrow> jsstring \<Rightarrow> submit_result \<Rightarrow> page \<Rightarrow> page" where
  "handleArticleSubmit t0 c0 r p =
     (let t = trim t0; c = trim c0 in
      if t = [] \<or> c = [] then alert ''Please fill in both title and content fields.'' p
      else (case r of
              SubmitFailed \<Rightarrow> alert ''Error publishing article. Please try again.'' p
            | SubmitReply ok \<Rightarrow>
                if ok then alert ''Article published successfully!'' (hideAddArticleForm p)
                else alert ''Error publishing article. Please try again.'' p))"

subsection \<open>Executions of the client\<close>

text \<open>
  The steps of the script after the document has loaded: a request of \<open>loadArticles\<close>
  ends, the button of the card at some position is clicked, the form is submitted, the
  form is shown or hidden.
\<close>

datatype event =
    Loaded fetch_result
  | Clicked nat
  | Submitted jsstring jsstring submit_result
  | FormShown
  | FormHidden

fun step :: "browser \<Rightarrow> page \<Rightarrow> event \<Rightarrow> page" where
  "step B p (Loaded r) = loadArticles B r p"
| "step B p (Clicked i) =
     (if i < length (articlesList p)
      then p\<lparr>articlesList := (articlesList p)[i := toggleReadMore (articlesList p ! i)]\<rparr>
      else p)"
| "step B p (Submitted t c r) = handleArticleSubmit t c r p"
| "step B p FormShown = showAddArticleForm p"
| "step B p FormHidden = hideAddArticleForm p"

definition run :: "browser \<Rightarrow> page \<Rightarrow> event list \<Rightarrow> page" where
  "run B p es = foldl (step B) p es"

text \<open>How many of the four states show.\<close>

definition visible_states :: "page \<Rightarrow> nat" where
  "visible_states p =
     (case loadingElement p of None \<Rightarrow> 0 | Some d \<Rightarrow> if visible d then 1 else 0)
     + (if visible (emptyState p) then 1 else 0)
     + (if visible (errorState p) then 1 else 0)
     + (if visible (articlesList_display p) then 1 else 0)"

text \<open>
  A fragment in which no tag can start or end: it has neither \<open><\<close> nor \<open>>\<close>.
  A card is safe when every fragment it holds is.
\<close>

definition markup_free :: "jsstring \<Rightarrow> bool" where
  "markup_free h \<longleftrightarrow> 0x3C \<notin> set h \<and> 0x3E \<notin> set h"

definition card_safe :: "card \<Rightarrow> bool" where
  "card_safe c \<longleftrightarrow>
     markup_free (title_html c) \<and> markup_free (content_html c)
     \<and> (case read_more_btn c of None \<Rightarrow> True | Some b \<Rightarrow> markup_free (data_full_content b))"

text \<open>
  The failures of the request of \<open>loadArticles\<close>: a network error, a status that is
  not OK, a body that is not JSON, or a body with \<open>success: false\<close>.
\<close>

definition load_failed :: "fetch_result \<Rightarrow> bool" where
  "load_failed r \<longleftrightarrow>
     (case r of
        NetworkError \<Rightarrow> True
      | Response ok body \<Rightarrow>
          \<not> ok \<or> (case body of None \<Rightarrow> True | Some result \<Rightarrow> \<not> reply_success result))"

section \<open>Properties of the backend\<close>

subsection \<open>Trimming and saving\<close>

lemma dropWhile_unchanged: "xs = [] \<or> \<not> P (hd xs) \<Longrightarrow> dropWhile P xs = xs"
  by (cases xs) auto

lemma trim_idem: "trim (trim s) = trim s"
  unfolding trim_def
  by (metis (no_types, lifting) ext Nil_is_rev_conv dropWhile_eq_Nil_conv
      dropWhile_unchanged dropWhile_last hd_dropWhile last_rev rev_swap)

lemma trim_unchanged:
  assumes "s \<noteq> []" and "\<not> isWhiteSpace (hd s)" and "\<not> isWhiteSpace (last s)"
  shows "trim s = s"
proof -
  have "dropWhile isWhiteSpace s = s"
    using assms by (cases s) auto
  moreover have "dropWhile isWhiteSpace (rev s) = rev s"
    using assms by (cases "rev s") (auto simp: hd_rev)
  ultimately show ?thesis
    by (simp add: trim_def)
qed

lemma set_trimmed_Text: "set_trimmed e v = Text s \<Longrightarrow> trim s = s"
  by (auto simp: set_trimmed_def trim_idem split: jsval.splits option.splits)

text \<open>What a successful \<open>save\<close> says about the document and the collection.\<close>

lemma save_Inr:
  "save e store d = Inr (a, store') \<Longrightarrow>
     store' = store @ [a] \<and> reachable e
     \<and> doc_title d = Text (title a) \<and> doc_content d = Text (content a)
     \<and> title a \<noteq> [] \<and> length (title a) \<le> 200 \<and> content a \<noteq> []
     \<and> date a = doc_date d \<and> article_id a = doc_id d"
  by (auto simp: save_def validate_title_def validate_content_def Let_def
      split: path_value.splits if_splits sum.splits)

lemma save_new_Article_valid:
  assumes "save e store (new_Article e t c) = Inr (a, store')"
  shows "valid_article a"
  using save_Inr[OF assms] set_trimmed_Text[of e t "title a"]
    set_trimmed_Text[of e c "content a"]
  by (simp add: new_Article_def valid_article_def)

lemma get_articles_store: "snd (get_articles e store) = store"
  by (simp add: get_articles_def split: sum.splits)

lemma post_articles_store:
  "snd (post_articles e store body) = store
   \<or> (\<exists>a. snd (post_articles e store body) = store @ [a] \<and> valid_article a)"
  by (auto simp: post_articles_def Let_def split: sum.splits
      dest: save_new_Article_valid save_Inr)

lemma serve_valid:
  assumes "\<forall>a\<in>set store. valid_article a"
  shows "\<forall>a\<in>set (serve store q). valid_article a"
proof (cases q)
  case (Pair e r)
  show ?thesis
  proof (cases r)
    case GetArticles
    with Pair assms show ?thesis
      by (simp add: get_articles_store)
  next
    case (PostArticles body)
    with Pair assms post_articles_store[of e store body] show ?thesis
      by auto
  qed
qed

lemma foldl_serve_valid:
  "\<forall>a\<in>set store. valid_article a \<Longrightarrow> \<forall>a\<in>set (foldl serve store qs). valid_article a"
proof (induction qs arbitrary: store)
  case Nil
  then show ?case by simp
next
  case (Cons q qs)
  from Cons.prems have "\<forall>a\<in>set (serve store q). valid_article a"
    by (rule serve_valid)
  then show ?case
    using Cons.IH by simp
qed

subsection \<open>The create route\<close>

text \<open>
  C1. A POST whose body has a missing or empty \<open>title\<close>, or a missing or empty
  \<open>content\<close>, is answered 400 with the envelope \<open>{success: false, message}\<close>, and
  the collection is left as it was.
\<close>

theorem post_missing_or_empty_400:
  assumes "body ''title'' = None \<or> body ''title'' = Some (Str [])
         \<or> body ''content'' = None \<or> body ''content'' = Some (Str [])"
  shows "post_articles e store body =
           (\<lparr>status = 400, json = Failed (js ''Title and content are required'')\<rparr>, store)
         \<and> \<not> success (json (fst (post_articles e store body)))"
  using assms by (auto simp: post_articles_def property_def Let_def)

theorem post_missing_or_empty_400_witness:
  "post_articles \<lparr>now = 0, fresh_id = 0, reachable = True, cast_other = (\<lambda>v. None)\<rparr> []
     [''content'' \<mapsto> Str (js ''text'')]
   = (\<lparr>status = 400, json = Failed (js ''Title and content are required'')\<rparr>, [])"
  using post_missing_or_empty_400
    [of "[''content'' \<mapsto> Str (js ''text'')]"
        "\<lparr>now = 0, fresh_id = 0, reachable = True, cast_other = (\<lambda>v. None)\<rparr>" "[]"]
  by simp

text \<open>
  C2. A POST with a non-empty \<open>title\<close> and a non-empty \<open>content\<close> whose document
  the persistence layer accepts adds exactly one article to the collection, the saved one;
  its \<open>date\<close> is the time the server read from its clock, its texts are the trimmed
  fields, and the answer is 201 with an envelope that holds the saved record.
\<close>

theorem post_accepted_201:
  assumes "body ''title'' = Some (Str t)" and "t \<noteq> []"
    and "body ''content'' = Some (Str c)" and "c \<noteq> []"
    and "save e store (new_Article e (Str t) (Str c)) = Inr (saved, store')"
  shows "post_articles e store body =
           (\<lparr>status = 201, json = Saved (js ''Article created successfully'') saved\<rparr>,
            store @ [saved])
         \<and> store' = store @ [saved]
         \<and> date saved = now e \<and> title saved = trim t \<and> content saved = trim c"
  using assms save_Inr[OF assms(5)]
  by (simp add: post_articles_def property_def Let_def new_Article_def set_trimmed_def)

theorem post_accepted_201_witness:
  "save \<lparr>now = 1000, fresh_id = 7, reachable = True, cast_other = (\<lambda>v. None)\<rparr> []
     (new_Article \<lparr>now = 1000, fresh_id = 7, reachable = True, cast_other = (\<lambda>v. None)\<rparr>
        (Str (js ''Phishing 101'')) (Str (js '' body '')))
   = Inr (\<lparr>article_id = 7, title = js ''Phishing 101'', content = js ''body'', date = 1000\<rparr>,
          [\<lparr>article_id = 7, title = js ''Phishing 101'', content = js ''body'', date = 1000\<rparr>])
   \<and> post_articles \<lparr>now = 1000, fresh_id = 7, reachable = True, cast_other = (\<lambda>v. None)\<rparr> []
        [''title'' \<mapsto> Str (js ''Phishing 101''), ''content'' \<mapsto> Str (js '' body '')]
     = (\<lparr>status = 201,
         json = Saved (js ''Article created successfully'')
           \<lparr>article_id = 7, title = js ''Phishing 101'', content = js ''body'', date = 1000\<rparr>\<rparr>,
        [\<lparr>article_id = 7, title = js ''Phishing 101'', content = js ''body'', date = 1000\<rparr>])"
proof -
  have s: "save \<lparr>now = 1000, fresh_id = 7, reachable = True, cast_other = (\<lambda>v. None)\<rparr> []
     (new_Article \<lparr>now = 1000, fresh_id = 7, reachable = True, cast_other = (\<lambda>v. None)\<rparr>
        (Str (js ''Phishing 101'')) (Str (js '' body '')))
   = Inr (\<lparr>article_id = 7, title = js ''Phishing 101'', content = js ''body'', date = 1000\<rparr>,
          [\<lparr>article_id = 7, title = js ''Phishing 101'', content = js ''body'', date = 1000\<rparr>])"
    by (simp add: save_def new_Article_def set_trimmed_def validate_title_def
        validate_content_def trim_def js_def isWhiteSpace_def Let_def)
  show ?thesis
    using s post_accepted_201
      [of "[''title'' \<mapsto> Str (js ''Phishing 101''), ''content'' \<mapsto> Str (js '' body '')]"
          "js ''Phishing 101''" "js '' body ''"
          "\<lparr>now = 1000, fresh_id = 7, reachable = True, cast_other = (\<lambda>v. None)\<rparr>" "[]"
          "\<lparr>article_id = 7, title = js ''Phishing 101'', content = js ''body'', date = 1000\<rparr>"
          "[\<lparr>article_id = 7, title = js ''Phishing 101'', content = js ''body'',
             date = 1000\<rparr>]"]
    by (simp add: js_def)
qed

subsection \<open>The invariant of the collection\<close>

text \<open>
  C3. The list route never changes the collection; the create route leaves it as it was or
  adds one article, and that article has a non-empty title and a non-empty content after
  trimming and a title of at most 200 code units. So both routes keep the invariant that
  every stored article is such an article, and it holds after any sequence of requests on
  a collection that starts empty.
\<close>

theorem routes_keep_articles_valid:
  "snd (get_articles e store) = store
   \<and> (snd (post_articles e store body) = store
      \<or> (\<exists>a. snd (post_articles e store body) = store @ [a] \<and> valid_article a))
   \<and> ((\<forall>a\<in>set store. valid_article a) \<longrightarrow>
        (\<forall>a\<in>set (snd (get_articles e store)). valid_article a)
        \<and> (\<forall>a\<in>set (snd (post_articles e store body)). valid_article a))
   \<and> (\<forall>a\<in>set (foldl serve [] qs). valid_article a)"
proof -
  have "\<forall>a\<in>set (snd (post_articles e store body)). valid_article a"
    if "\<forall>a\<in>set store. valid_article a"
    using that post_articles_store[of e store body] by auto
  moreover have "\<forall>a\<in>set (foldl serve [] qs). valid_article a"
    by (rule foldl_serve_valid) simp
  ultimately show ?thesis
    using post_articles_store[of e store body] by (simp add: get_articles_store)
qed

theorem routes_keep_articles_valid_witness:
  "snd (get_articles \<lparr>now = 5, fresh_id = 2, reachable = True, cast_other = (\<lambda>v. None)\<rparr> [])
     = []
   \<and> snd (post_articles \<lparr>now = 5, fresh_id = 2, reachable = True, cast_other = (\<lambda>v. None)\<rparr>
        [] [''title'' \<mapsto> Str (js ''a''), ''content'' \<mapsto> Str (js ''b'')])
     = [\<lparr>article_id = 2, title = js ''a'', content = js ''b'', date = 5\<rparr>]
   \<and> valid_article \<lparr>article_id = 2, title = js ''a'', content = js ''b'', date = 5\<rparr>"
proof -
  have p: "snd (post_articles \<lparr>now = 5, fresh_id = 2, reachable = True, cast_other = (\<lambda>v. None)\<rparr>
        [] [''title'' \<mapsto> Str (js ''a''), ''content'' \<mapsto> Str (js ''b'')])
     = [\<lparr>article_id = 2, title = js ''a'', content = js ''b'', date = 5\<rparr>]"
    by (simp add: post_articles_def property_def Let_def save_def new_Article_def
        set_trimmed_def validate_title_def validate_content_def trim_def js_def
        isWhiteSpace_def)
  show ?thesis
    using p routes_keep_articles_valid
      [of "\<lparr>now = 5, fresh_id = 2, reachable = True, cast_other = (\<lambda>v. None)\<rparr>" "[]"
          "[''title'' \<mapsto> Str (js ''a''), ''content'' \<mapsto> Str (js ''b'')]" "[]"]
    by simp
qed

subsection \<open>The list route\<close>

text \<open>
  C4. Whatever the collection holds, when the persistence layer answers, the list route
  responds with the envelope \<open>{success: true, count, data}\<close> in which \<open>data\<close> holds
  exactly the stored articles, ordered by \<open>date\<close> descending, and \<open>count\<close> is the
  number of stored articles, which is the length of \<open>data\<close>. The collection stays as it
  was.
\<close>

theorem get_lists_all_newest_first:
  assumes "reachable e"
  shows "\<exists>data. get_articles e store =
                  (\<lparr>status = 200, json = Listed (length store) data\<rparr>, store)
           \<and> success (json (fst (get_articles e store)))
           \<and> mset data = mset store
           \<and> sorted_wrt (\<lambda>a b. date a \<ge> date b) data
           \<and> length data = length store"
  using assms sorted_sort_key[of "\<lambda>a. - date a" store]
  by (simp add: get_articles_def find_sorted_def sorted_map)

theorem get_lists_all_newest_first_witness:
  "get_articles \<lparr>now = 9, fresh_id = 3, reachable = True, cast_other = (\<lambda>v. None)\<rparr>
     [\<lparr>article_id = 1, title = js ''old'', content = js ''x'', date = 1\<rparr>,
      \<lparr>article_id = 2, title = js ''new'', content = js ''y'', date = 2\<rparr>]
   = (\<lparr>status = 200,
       json = Listed 2
         [\<lparr>article_id = 2, title = js ''new'', content = js ''y'', date = 2\<rparr>,
          \<lparr>article_id = 1, title = js ''old'', content = js ''x'', date = 1\<rparr>]\<rparr>,
      [\<lparr>article_id = 1, title = js ''old'', content = js ''x'', date = 1\<rparr>,
       \<lparr>article_id = 2, title = js ''new'', content = js ''y'', date = 2\<rparr>])"
  using get_lists_all_newest_first
    [of "\<lparr>now = 9, fresh_id = 3, reachable = True, cast_other = (\<lambda>v. None)\<rparr>"
        "[\<lparr>article_id = 1, title = js ''old'', content = js ''x'', date = 1\<rparr>,
          \<lparr>article_id = 2, title = js ''new'', content = js ''y'', date = 2\<rparr>]"]
  by (simp add: get_articles_def find_sorted_def)

subsection \<open>Rejected calls of the persistence layer\<close>






section \<open>Properties of the client\<close>

subsection \<open>Escaping\<close>

lemma displayedText_escapeChar: "displayedText (escapeChar c @ s) = c # displayedText s"
  by (simp add: escapeChar_def js_def)

text \<open>The browser shows an escaped text as the text itself.\<close>

lemma displayedText_escapeHtml: "displayedText (escapeHtml s) = s"
  by (induction s) (simp_all add: escapeHtml_def displayedText_escapeChar)

lemma escapeHtml_append: "escapeHtml (s @ t) = escapeHtml s @ escapeHtml t"
  by (simp add: escapeHtml_def)

lemma escapeHtml_plain: "\<forall>c\<in>set s. escapeChar c = [c] \<Longrightarrow> escapeHtml s = s"
  by (induction s) (simp_all add: escapeHtml_def)

lemma escapeHtml_dots: "escapeHtml (js ''...'') = js ''...''"
  by (simp add: escapeHtml_def escapeChar_def js_def)

lemma escapeChar_markup_free: "markup_free (escapeChar c)"
  by (simp add: escapeChar_def markup_free_def js_def)

lemma escapeHtml_markup_free: "markup_free (escapeHtml s)"
  using escapeChar_markup_free by (auto simp: escapeHtml_def markup_free_def)

lemma markup_free_truncated: "markup_free h \<Longrightarrow> markup_free (take n h @ js ''...'')"
  by (auto simp: markup_free_def js_def dest: in_set_takeD)

lemma escapeHtml_replicate_lt:
  "escapeHtml (replicate n 0x3C) = concat (replicate n (js ''&lt;''))"
  by (induction n) (simp_all add: escapeHtml_def escapeChar_def)

lemma take_concat_replicate:
  "length w = k \<Longrightarrow> take (m * k) (concat (replicate (m + n) w)) = concat (replicate m w)"
  by (induction m) simp_all

lemma displayedText_replicate_lt:
  "displayedText (concat (replicate n (js ''&lt;'')) @ s) = replicate n 0x3C @ displayedText s"
  by (induction n) (simp_all add: js_def)

lemma trim_replicate_A: "trim (replicate n 0x41) = replicate n 0x41"
proof (cases n)
  case 0
  then show ?thesis by (simp add: trim_def)
next
  case (Suc m)
  then show ?thesis
    by (intro trim_unchanged) (simp_all add: isWhiteSpace_def last_replicate)
qed

subsection \<open>The read-more control\<close>

text \<open>
  C6. A card whose content has at most 200 code units has no read-more button and shows
  the content; a card whose content is longer has the button, is collapsed, and shows the
  first 200 code units followed by \<open>...\<close>. In particular, after the article with title
  \<open>Phishing 101\<close> and a content of 250 letters \<open>A\<close> is created in an empty
  collection, the list response holds that one article with a content of length 250, and
  the text its card shows has length 203.
\<close>

theorem read_more_control:
  "(length (content a) \<le> 200 \<longrightarrow>
      read_more_btn (createArticleCard B a) = None
      \<and> \<not> collapsed (createArticleCard B a)
      \<and> content_html (createArticleCard B a) = escapeHtml (content a)
      \<and> displayedText (content_html (createArticleCard B a)) = content a)
   \<and> (length (content a) > 200 \<longrightarrow>
      (\<exists>b. read_more_btn (createArticleCard B a) = Some b)
      \<and> collapsed (createArticleCard B a)
      \<and> content_html (createArticleCard B a)
          = escapeHtml (take 200 (content a) @ js ''...'')
      \<and> displayedText (content_html (createArticleCard B a))
          = take 200 (content a) @ js ''...'')
   \<and> (reachable e \<and> reachable e' \<longrightarrow>
      (\<exists>x. snd (post_articles e []
                 [''title'' \<mapsto> Str (js ''Phishing 101''),
                  ''content'' \<mapsto> Str (replicate 250 0x41)]) = [x]
           \<and> get_articles e' [x] = (\<lparr>status = 200, json = Listed 1 [x]\<rparr>, [x])
           \<and> title x = js ''Phishing 101''
           \<and> length (content x) = 250
           \<and> (\<exists>b. read_more_btn (createArticleCard B x) = Some b)
           \<and> length (displayedText (content_html (createArticleCard B x))) = 203))"
proof -
  have general:
    "(length (content a) \<le> 200 \<longrightarrow>
        read_more_btn (createArticleCard B a) = None
        \<and> \<not> collapsed (createArticleCard B a)
        \<and> content_html (createArticleCard B a) = escapeHtml (content a)
        \<and> displayedText (content_html (createArticleCard B a)) = content a)
     \<and> (length (content a) > 200 \<longrightarrow>
        (\<exists>b. read_more_btn (createArticleCard B a) = Some b)
        \<and> collapsed (createArticleCard B a)
        \<and> content_html (createArticleCard B a)
            = escapeHtml (take 200 (content a) @ js ''...'')
        \<and> displayedText (content_html (createArticleCard B a))
            = take 200 (content a) @ js ''...'')"
    by (simp add: createArticleCard_def Let_def displayedText_escapeHtml)
  have t: "trim (js ''Phishing 101'') = js ''Phishing 101''"
    by (simp add: trim_def js_def isWhiteSpace_def)
  have l: "length (js ''Phishing 101'') = 12" "length (js ''...'') = 3"
    "js ''Phishing 101'' \<noteq> []"
    by (simp_all add: js_def)
  have example: "\<exists>x. snd (post_articles e []
                 [''title'' \<mapsto> Str (js ''Phishing 101''),
                  ''content'' \<mapsto> Str (replicate 250 0x41)]) = [x]
           \<and> get_articles e' [x] = (\<lparr>status = 200, json = Listed 1 [x]\<rparr>, [x])
           \<and> title x = js ''Phishing 101''
           \<and> length (content x) = 250
           \<and> (\<exists>b. read_more_btn (createArticleCard B x) = Some b)
           \<and> length (displayedText (content_html (createArticleCard B x))) = 203"
    if "reachable e" and "reachable e'"
    using that
    by (simp add: post_articles_def property_def Let_def new_Article_def set_trimmed_def
        trim_replicate_A t l save_def validate_title_def validate_content_def
        get_articles_def find_sorted_def createArticleCard_def displayedText_escapeHtml)
  show ?thesis
    using general example by blast
qed

theorem read_more_control_witness:
  "length (content \<lparr>article_id = 1, title = js ''Phishing 101'',
                    content = replicate 250 0x41, date = 0\<rparr>) = 250
   \<and> collapsed (createArticleCard \<lparr>toLowerCase = (\<lambda>s. s), toLocaleDateString = (\<lambda>d. [])\<rparr>
        \<lparr>article_id = 1, title = js ''Phishing 101'', content = replicate 250 0x41, date = 0\<rparr>)
   \<and> displayedText (content_html
        (createArticleCard \<lparr>toLowerCase = (\<lambda>s. s), toLocaleDateString = (\<lambda>d. [])\<rparr>
           \<lparr>article_id = 1, title = js ''Phishing 101'', content = replicate 250 0x41,
             date = 0\<rparr>))
     = replicate 200 0x41 @ js ''...''"
  using read_more_control
    [of "\<lparr>article_id = 1, title = js ''Phishing 101'', content = replicate 250 0x41, date = 0\<rparr>"
        "\<lparr>toLowerCase = (\<lambda>s. s), toLocaleDateString = (\<lambda>d. [])\<rparr>"
        "\<lparr>now = 0, fresh_id = 1, reachable = True, cast_other = (\<lambda>v. None)\<rparr>"
        "\<lparr>now = 1, fresh_id = 2, reachable = True, cast_other = (\<lambda>v. None)\<rparr>"]
  by (simp add: displayedText_escapeHtml)

subsection \<open>Expanding and collapsing\<close>

text \<open>Toggling never changes the content cached on the button.\<close>

lemma toggleReadMore_keeps_cache:
  "map_option data_full_content (read_more_btn (toggleReadMore c))
   = map_option data_full_content (read_more_btn c)"
  by (simp add: toggleReadMore_def Let_def split: option.splits)

text \<open>The first click on a collapsed card shows the whole content.\<close>

lemma toggleReadMore_expands:
  "length (content a) > 200 \<Longrightarrow>
   displayedText (content_html (toggleReadMore (createArticleCard B a))) = content a
   \<and> expanded (toggleReadMore (createArticleCard B a))
   \<and> \<not> collapsed (toggleReadMore (createArticleCard B a))"
  by (simp add: toggleReadMore_def createArticleCard_def Let_def displayedText_escapeHtml)

text \<open>
  The second click restores the first display when no code unit of the content needs
  escaping.
\<close>

lemma toggleReadMore_twice_plain:
  assumes "length (content a) > 200" and "\<forall>c\<in>set (content a). escapeChar c = [c]"
  shows "content_html (toggleReadMore (toggleReadMore (createArticleCard B a)))
         = content_html (createArticleCard B a)"
proof -
  have "\<forall>c\<in>set (take 200 (content a)). escapeChar c = [c]"
    using assms(2) by (auto dest: in_set_takeD)
  then have "escapeHtml (take 200 (content a)) = take 200 (content a)"
    by (rule escapeHtml_plain)
  moreover have "escapeHtml (content a) = content a"
    using assms(2) by (rule escapeHtml_plain)
  ultimately show ?thesis
    using assms(1)
    by (simp add: toggleReadMore_def createArticleCard_def Let_def escapeHtml_append
        escapeHtml_dots)
qed

text \<open>
  C7. A click on a collapsed card shows the whole cached content, and a second click
  should bring back exactly the truncated display the card had before. It does not when
  the content has code units that need escaping: the collapse branch of
  \<open>toggleReadMore\<close> cuts the escaped text of the cache at 200 code units, where
  \<open>createArticleCard\<close> cuts the content itself and escapes afterwards. For a content of
  250 times \<open><\<close> the card first shows 200 of them and \<open>...\<close>, after one click all
  250, and after the second click only 50 and \<open>...\<close>.
\<close>

theorem toggle_twice_shows_less:
  "(let a = \<lparr>article_id = 0, title = js ''t'', content = replicate 250 0x3C, date = 0\<rparr>;
        c = createArticleCard B a
    in displayedText (content_html c) = replicate 200 0x3C @ js ''...''
     \<and> displayedText (content_html (toggleReadMore c)) = replicate 250 0x3C
     \<and> displayedText (content_html (toggleReadMore (toggleReadMore c)))
        = replicate 50 0x3C @ js ''...''
     \<and> content_html (toggleReadMore (toggleReadMore c)) \<noteq> content_html c)"
proof -
  have t: "take 200 (concat (replicate 250 (js ''&lt;''))) = concat (replicate 50 (js ''&lt;''))"
    using take_concat_replicate[of "js ''&lt;''" 4 50 200] by (simp add: js_def)
  have d: "displayedText (js ''...'') = js ''...''"
    by (simp add: js_def)
  have f: "displayedText (concat (replicate 250 (js ''&lt;''))) = replicate 250 0x3C"
    using displayedText_replicate_lt[of 250 "[]"] by simp
  have n: "concat (replicate 50 (js ''&lt;'')) @ js ''...''
           \<noteq> concat (replicate 200 (js ''&lt;'')) @ js ''...''"
  proof
    assume "concat (replicate 50 (js ''&lt;'')) @ js ''...''
            = concat (replicate 200 (js ''&lt;'')) @ js ''...''"
    then have "length (concat (replicate 50 (js ''&lt;'')) @ js ''...'')
               = length (concat (replicate 200 (js ''&lt;'')) @ js ''...'')"
      by simp
    then show False
      by (simp add: js_def length_concat sum_list_replicate)
  qed
  show ?thesis
    using n
    by (simp add: Let_def createArticleCard_def toggleReadMore_def displayedText_escapeHtml
        escapeHtml_replicate_lt escapeHtml_append escapeHtml_dots t
        displayedText_replicate_lt d f)
qed

subsection \<open>No markup from the article's fields\<close>

lemma card_safe_createArticleCard: "card_safe (createArticleCard B a)"
  by (simp add: card_safe_def createArticleCard_def Let_def escapeHtml_markup_free)

lemma card_safe_toggleReadMore: "card_safe c \<Longrightarrow> card_safe (toggleReadMore c)"
  by (auto simp: card_safe_def toggleReadMore_def Let_def markup_free_truncated
      split: option.splits)

text \<open>What a card holds after any number of clicks on its button.\<close>

lemma toggled_card_shape:
  "title_html ((toggleReadMore ^^ n) (createArticleCard B a)) = escapeHtml (title a)
   \<and> (content_html ((toggleReadMore ^^ n) (createArticleCard B a)) = escapeHtml (content a)
      \<or> content_html ((toggleReadMore ^^ n) (createArticleCard B a))
          = escapeHtml (take 200 (content a) @ js ''...'')
      \<or> content_html ((toggleReadMore ^^ n) (createArticleCard B a))
          = take 200 (escapeHtml (content a)) @ js ''...'')
   \<and> read_more_btn ((toggleReadMore ^^ n) (createArticleCard B a))
       = (if length (content a) > 200
          then Some \<lparr>caption =
                       (if collapsed ((toggleReadMore ^^ n) (createArticleCard B a))
                        then ReadMore else ReadLess),
                     data_full_content = escapeHtml (content a)\<rparr>
          else None)"
proof (induction n)
  case 0
  show ?case
    by (simp add: createArticleCard_def Let_def)
next
  case (Suc n)
  then show ?case
    by (auto simp: toggleReadMore_def Let_def split: option.splits if_splits)
qed

lemma step_keeps_cards_safe:
  assumes "\<forall>c\<in>set (articlesList p). card_safe c"
  shows "\<forall>c\<in>set (articlesList (step B p ev)). card_safe c"
proof (cases ev)
  case (Loaded r)
  with assms show ?thesis
    by (auto simp: loadArticles_def displayArticles_def showEmptyState_def hideAllStates_def
        Let_def card_safe_createArticleCard split: fetch_result.splits option.splits if_splits)
next
  case (Clicked i)
  with assms show ?thesis
    by (auto simp: card_safe_toggleReadMore dest!: set_update_subset_insert[THEN subsetD])
next
  case (Submitted t c r)
  with assms show ?thesis
    by (auto simp: handleArticleSubmit_def alert_def hideAddArticleForm_def Let_def
        split: submit_result.splits)
next
  case FormShown
  with assms show ?thesis
    by (simp add: showAddArticleForm_def)
next
  case FormHidden
  with assms show ?thesis
    by (simp add: hideAddArticleForm_def)
qed

lemma run_keeps_cards_safe:
  "\<forall>c\<in>set (articlesList p). card_safe c \<Longrightarrow>
   \<forall>c\<in>set (articlesList (run B p es)). card_safe c"
  unfolding run_def
proof (induction es arbitrary: p)
  case Nil
  then show ?case by simp
next
  case (Cons ev es)
  show ?case
    using Cons.IH[OF step_keeps_cards_safe[OF Cons.prems, of B ev]] by simp
qed

text \<open>
  C8. Every text of an article that reaches the page went through \<open>escapeHtml\<close> first.
  After any number of clicks on its button, the title fragment of a card is the escaped
  title, and its content fragment is the escaped content, the escaped truncated content,
  or the first 200 code units of the escaped content followed by \<open>...\<close>; the cache on
  the button is the escaped content. None of these fragments contains \<open><\<close> or
  \<open>>\<close>, so none can open or close a tag, and the browser shows an escaped fragment as
  the text itself. In every execution of the client, all cards of the page stay free of
  markup.
\<close>

theorem user_text_escaped:
  "title_html ((toggleReadMore ^^ n) (createArticleCard B a)) = escapeHtml (title a)
   \<and> (content_html ((toggleReadMore ^^ n) (createArticleCard B a)) = escapeHtml (content a)
      \<or> content_html ((toggleReadMore ^^ n) (createArticleCard B a))
          = escapeHtml (take 200 (content a) @ js ''...'')
      \<or> content_html ((toggleReadMore ^^ n) (createArticleCard B a))
          = take 200 (escapeHtml (content a)) @ js ''...'')
   \<and> (\<forall>b. read_more_btn ((toggleReadMore ^^ n) (createArticleCard B a)) = Some b
          \<longrightarrow> data_full_content b = escapeHtml (content a))
   \<and> markup_free (title_html ((toggleReadMore ^^ n) (createArticleCard B a)))
   \<and> markup_free (content_html ((toggleReadMore ^^ n) (createArticleCard B a)))
   \<and> displayedText (escapeHtml (title a)) = title a
   \<and> displayedText (escapeHtml (content a)) = content a
   \<and> ((\<forall>c\<in>set (articlesList p). card_safe c) \<longrightarrow>
        (\<forall>c\<in>set (articlesList (run B p es)). card_safe c))"
proof -
  let ?c = "(toggleReadMore ^^ n) (createArticleCard B a)"
  note shape = toggled_card_shape[of n B a]
  have cache: "\<forall>b. read_more_btn ?c = Some b \<longrightarrow> data_full_content b = escapeHtml (content a)"
    using shape by (auto split: if_splits)
  have "markup_free (title_html ?c)"
    using shape by (simp add: escapeHtml_markup_free)
  moreover have "markup_free (content_html ?c)"
    using shape escapeHtml_markup_free[of "content a"]
      escapeHtml_markup_free[of "take 200 (content a) @ js ''...''"]
      markup_free_truncated[of "escapeHtml (content a)" 200]
    by auto
  ultimately show ?thesis
    using shape cache run_keeps_cards_safe[of p B es]
    by (simp add: displayedText_escapeHtml)
qed

theorem user_text_escaped_witness:
  "title_html (toggleReadMore (toggleReadMore
      (createArticleCard \<lparr>toLowerCase = (\<lambda>s. s), toLocaleDateString = (\<lambda>d. [])\<rparr>
         \<lparr>article_id = 0, title = js ''<b>'', content = replicate 250 0x3C, date = 0\<rparr>)))
   = js ''&lt;b&gt;''
   \<and> markup_free (content_html (toggleReadMore (toggleReadMore
        (createArticleCard \<lparr>toLowerCase = (\<lambda>s. s), toLocaleDateString = (\<lambda>d. [])\<rparr>
           \<lparr>article_id = 0, title = js ''<b>'', content = replicate 250 0x3C, date = 0\<rparr>))))"
proof -
  have e: "escapeHtml (js ''<b>'') = js ''&lt;b&gt;''"
    by (simp add: escapeHtml_def escapeChar_def js_def)
  show ?thesis
    using e user_text_escaped
      [of "Suc (Suc 0)" "\<lparr>toLowerCase = (\<lambda>s. s), toLocaleDateString = (\<lambda>d. [])\<rparr>"
          "\<lparr>article_id = 0, title = js ''<b>'', content = replicate 250 0x3C, date = 0\<rparr>"
          "\<lparr>loadingElement = None, emptyState = DisplayNone, errorState = DisplayNone,
            articlesList_display = DisplayNone, articlesList = [],
            addArticleForm = DisplayNone, alerts = []\<rparr>" "[]"]
    by simp
qed

subsection \<open>One state at a time\<close>

lemma visible_states_showEmptyState: "visible_states (showEmptyState p) = 1"
  by (auto simp: visible_states_def showEmptyState_def hideAllStates_def Let_def
      split: option.splits)

lemma visible_states_showErrorState: "visible_states (showErrorState p) = 1"
  by (auto simp: visible_states_def showErrorState_def hideAllStates_def Let_def
      split: option.splits)

lemma visible_states_displayArticles: "visible_states (displayArticles B xs p) = 1"
  by (simp add: displayArticles_def Let_def visible_states_showEmptyState split: option.splits)
     (auto simp: visible_states_def hideAllStates_def Let_def split: option.splits)

lemma visible_states_loadArticles: "visible_states (loadArticles B r p) = 1"
  by (simp add: loadArticles_def visible_states_showEmptyState visible_states_displayArticles
      split: fetch_result.splits option.splits)

text \<open>Only the end of a request of \<open>loadArticles\<close> touches the four states.\<close>

lemma visible_states_step:
  "visible_states (step B p ev) = (case ev of Loaded r \<Rightarrow> 1 | _ \<Rightarrow> visible_states p)"
proof (cases ev)
  case (Loaded r)
  then show ?thesis by (simp add: visible_states_loadArticles)
next
  case (Clicked i)
  then show ?thesis by (simp add: visible_states_def)
next
  case (Submitted t c r)
  then show ?thesis
    by (simp add: visible_states_def handleArticleSubmit_def hideAddArticleForm_def alert_def
        Let_def split: submit_result.splits)
next
  case FormShown
  then show ?thesis by (simp add: visible_states_def showAddArticleForm_def)
next
  case FormHidden
  then show ?thesis by (simp add: visible_states_def hideAddArticleForm_def)
qed

lemma visible_states_run: "visible_states p = 1 \<Longrightarrow> visible_states (run B p es) = 1"
  unfolding run_def
  by (induction es arbitrary: p) (simp_all add: visible_states_step split: event.splits)

text \<open>
  C9. After each render step (\<open>displayArticles\<close>, \<open>showEmptyState\<close>,
  \<open>showErrorState\<close>) exactly one of the four states loading, list, empty and error
  shows, whatever the page looked like before. The same holds when a request of
  \<open>loadArticles\<close> has ended, and from then on after every later step of the client.
\<close>

theorem one_state_visible:
  "visible_states (displayArticles B articles p) = 1
   \<and> visible_states (showEmptyState p) = 1
   \<and> visible_states (showErrorState p) = 1
   \<and> visible_states (loadArticles B r p) = 1
   \<and> visible_states (run B p (Loaded r # es)) = 1"
  using visible_states_run[of "loadArticles B r p" B es]
  by (simp add: visible_states_showEmptyState visible_states_showErrorState
      visible_states_displayArticles visible_states_loadArticles run_def)

theorem one_state_visible_witness:
  "visible_states
     (displayArticles \<lparr>toLowerCase = (\<lambda>s. s), toLocaleDateString = (\<lambda>d. [])\<rparr>
        (Some [\<lparr>article_id = 1, title = js ''a'', content = js ''b'', date = 0\<rparr>])
        \<lparr>loadingElement = Some (FromStyleSheet True), emptyState = FromStyleSheet True,
          errorState = FromStyleSheet True, articlesList_display = FromStyleSheet False,
          articlesList = [], addArticleForm = FromStyleSheet False, alerts = []\<rparr>) = 1
   \<and> visible (articlesList_display
     (displayArticles \<lparr>toLowerCase = (\<lambda>s. s), toLocaleDateString = (\<lambda>d. [])\<rparr>
        (Some [\<lparr>article_id = 1, title = js ''a'', content = js ''b'', date = 0\<rparr>])
        \<lparr>loadingElement = Some (FromStyleSheet True), emptyState = FromStyleSheet True,
          errorState = FromStyleSheet True, articlesList_display = FromStyleSheet False,
          articlesList = [], addArticleForm = FromStyleSheet False, alerts = []\<rparr>))"
  using one_state_visible
    [of "\<lparr>toLowerCase = (\<lambda>s. s), toLocaleDateString = (\<lambda>d. [])\<rparr>"
        "Some [\<lparr>article_id = 1, title = js ''a'', content = js ''b'', date = 0\<rparr>]"
        "\<lparr>loadingElement = Some (FromStyleSheet True), emptyState = FromStyleSheet True,
          errorState = FromStyleSheet True, articlesList_display = FromStyleSheet False,
          articlesList = [], addArticleForm = FromStyleSheet False, alerts = []\<rparr>"
        NetworkError "[]"]
  by (simp add: displayArticles_def hideAllStates_def Let_def)

subsection \<open>Failed loads and the error state\<close>

lemma errorState_showEmptyState: "errorState (showEmptyState p) = DisplayNone"
  by (simp add: showEmptyState_def hideAllStates_def Let_def split: option.splits)

lemma errorState_displayArticles: "errorState (displayArticles B xs p) = DisplayNone"
  by (simp add: displayArticles_def Let_def errorState_showEmptyState split: option.splits)
     (simp add: hideAllStates_def Let_def split: option.splits)

lemma errorState_loadArticles: "errorState (loadArticles B r p) = DisplayNone"
  by (simp add: loadArticles_def errorState_showEmptyState errorState_displayArticles
      split: fetch_result.splits option.splits)

lemma errorState_step:
  "errorState (step B p ev) = (case ev of Loaded r \<Rightarrow> DisplayNone | _ \<Rightarrow> errorState p)"
  by (cases ev)
     (simp_all add: errorState_loadArticles handleArticleSubmit_def showAddArticleForm_def
        hideAddArticleForm_def alert_def Let_def split: submit_result.splits)

lemma errorState_run:
  "errorState (run B p es) = errorState p \<or> errorState (run B p es) = DisplayNone"
  unfolding run_def
proof (induction es arbitrary: p)
  case Nil
  show ?case by simp
next
  case (Cons ev es)
  show ?case
    using Cons.IH[of "step B p ev"] by (auto simp: errorState_step split: event.splits)
qed

text \<open>
  C10. When the request of \<open>loadArticles\<close> fails (a network error, a status that is not
  OK, an unreadable body, or a body with \<open>success: false\<close>), the client does what
  \<open>showEmptyState\<close> does:
  the empty state shows, and it alone. No step of the client ever sets the error state to
  anything but hidden: each step leaves its display as it was or sets it to \<open>none\<close>. So
  an error state that is hidden at the start stays hidden in every execution, and once a
  request of \<open>loadArticles\<close> has ended it is hidden for good.
\<close>

theorem load_failure_shows_empty:
  "(load_failed r \<longrightarrow>
      loadArticles B r p = showEmptyState p
      \<and> visible (emptyState (loadArticles B r p))
      \<and> visible_states (loadArticles B r p) = 1)
   \<and> \<not> visible (errorState (loadArticles B r p))
   \<and> (errorState (step B p ev) = errorState p \<or> errorState (step B p ev) = DisplayNone)
   \<and> (\<not> visible (errorState p) \<longrightarrow> \<not> visible (errorState (run B p es)))
   \<and> \<not> visible (errorState (run B p (Loaded r # es)))"
proof -
  have a: "loadArticles B r p = showEmptyState p" if "load_failed r"
    using that
    by (auto simp: load_failed_def loadArticles_def split: fetch_result.splits option.splits)
  have b: "errorState (step B p ev) = errorState p \<or> errorState (step B p ev) = DisplayNone"
    by (simp add: errorState_step split: event.splits)
  have c: "\<not> visible (errorState (run B p es))" if "\<not> visible (errorState p)"
    using that errorState_run[of B p es] by auto
  have d: "\<not> visible (errorState (run B p (Loaded r # es)))"
    using errorState_run[of B "loadArticles B r p" es]
    by (auto simp: run_def errorState_loadArticles)
  have e: "visible (emptyState (showEmptyState p))"
    by (simp add: showEmptyState_def)
  show ?thesis
    using a b c d e
    by (auto simp: visible_states_showEmptyState errorState_loadArticles)
qed

theorem load_failure_shows_empty_witness:
  "load_failed (Response False None)
   \<and> visible (emptyState
       (loadArticles \<lparr>toLowerCase = (\<lambda>s. s), toLocaleDateString = (\<lambda>d. [])\<rparr>
          (Response False None)
          \<lparr>loadingElement = Some (FromStyleSheet True), emptyState = FromStyleSheet False,
            errorState = FromStyleSheet False, articlesList_display = FromStyleSheet False,
            articlesList = [], addArticleForm = FromStyleSheet False, alerts = []\<rparr>))
   \<and> \<not> visible (errorState
       (loadArticles \<lparr>toLowerCase = (\<lambda>s. s), toLocaleDateString = (\<lambda>d. [])\<rparr>
          (Response False None)
          \<lparr>loadingElement = Some (FromStyleSheet True), emptyState = FromStyleSheet False,
            errorState = FromStyleSheet False, articlesList_display = FromStyleSheet False,
            articlesList = [], addArticleForm = FromStyleSheet False, alerts = []\<rparr>))"
proof -
  have f: "load_failed (Response False None)"
    by (simp add: load_failed_def)
  show ?thesis
    using f load_failure_shows_empty
      [of "Response False None"
          "\<lparr>toLowerCase = (\<lambda>s. s), toLocaleDateString = (\<lambda>d. [])\<rparr>"
          "\<lparr>loadingElement = Some (FromStyleSheet True), emptyState = FromStyleSheet False,
            errorState = FromStyleSheet False, articlesList_display = FromStyleSheet False,
            articlesList = [], addArticleForm = FromStyleSheet False, alerts = []\<rparr>"
          FormShown "[]"]
    by blast
qed

end
